theory Spec2Isabelle
  imports Complex_Main
begin

section \<open>Countdown-timer badge service (app.py)\<close>

text \<open>
  A shallow embedding of the time-dependent core of \<^verbatim>\<open>app.py\<close>: the localized text
  table, the frame-text selection, the font-fit loop of the badge rasterizer, the
  cache-key quantizer, the 60-frame GIF assembly and the \<^verbatim>\<open>lru_cache\<close> in front of it.

  Conventions of the model.
  \<^item> An aware \<^verbatim>\<open>datetime\<close> is the integer number of microseconds since the Unix epoch
    (the resolution of Python's datetime); a \<^verbatim>\<open>timedelta\<close> is an integer number of
    microseconds. Python's datetime covers the years 1 to 9999 only: the conversion
    from a timestamp and the addition of a span raise outside that range, and the GIF
    assembly, which converts and adds, is modelled with these errors. The single-instant
    selectors take instants that already exist and only subtract them.
  \<^item> \<^verbatim>\<open>timedelta.total_seconds()\<close> is the exact quotient by \<open>10\<^sup>6\<close>, a rational. Python
    returns the nearest double, which truncates to the same integer for every span below
    \<open>2\<^sup>3\<^sup>4\<close> seconds (about 544 years).
  \<^item> A Python \<^verbatim>\<open>str\<close> is a list of code points; every code point used by the program is
    below 256, so it is one \<^typ>\<open>char\<close>.
  \<^item> Pillow (text measurement, drawing, encoding) and the builtin \<^verbatim>\<open>int(str)\<close> parser
    are parameters of the functions that call them.
\<close>

subsection \<open>Errors\<close>

datatype error = KeyError | IndexError | ValueError | OverflowError

subsection \<open>Module constants\<close>

definition WIDTH :: int where "WIDTH = 600"
definition HEIGHT :: int where "HEIGHT = 140"
definition FONT_SIZE :: int where "FONT_SIZE = 80"
definition CACHE_SECONDS :: int where "CACHE_SECONDS = 60"
definition CTA_FRAMES :: int where "CTA_FRAMES = 5"
definition DEFAULT_LANG :: string where "DEFAULT_LANG = ''en''"

text \<open>
  \<^verbatim>\<open>LANG_TXT\<close>, a dict of dicts. The Estonian entries contain U+00C4 (A with diaeresis),
  written \<open>CHR 0xC4\<close>.
\<close>

definition LANG_TXT :: "string \<rightharpoonup> (string \<rightharpoonup> string)" where
  "LANG_TXT = map_of
     [(''en'', map_of
         [(''cta'', ''START BETTING''),
          (''started'', ''MATCH HAS STARTED''),
          (''over'', ''MATCH IS OVER'')]),
      (''et'', map_of
         [(''cta'', ''ALUSTA PANUSTAMIST''),
          (''started'', ''M'' @ [CHR 0xC4] @ ''NG ON ALANUD''),
          (''over'', ''M'' @ [CHR 0xC4] @ ''NG ON L'' @ [CHR 0xC4] @ ''BI'')])]"

text \<open>
  \<^verbatim>\<open>LANG_TXT.get(lang, LANG_TXT[DEFAULT_LANG]).get(key, LANG_TXT[DEFAULT_LANG][key])\<close>:
  both defaults are evaluated before the lookups, so a key missing from the default
  table raises \<^verbatim>\<open>KeyError\<close> whatever the language.
\<close>

definition t :: "string \<Rightarrow> string \<Rightarrow> error + string" where
  "t lang key =
     (case LANG_TXT DEFAULT_LANG of
        None \<Rightarrow> Inl KeyError
      | Some dflt \<Rightarrow>
          (let tbl = (case LANG_TXT lang of None \<Rightarrow> dflt | Some d \<Rightarrow> d) in
           case dflt key of
             None \<Rightarrow> Inl KeyError
           | Some fallback \<Rightarrow> Inr (case tbl key of None \<Rightarrow> fallback | Some v \<Rightarrow> v)))"

subsection \<open>Integer formatting\<close>

definition digit :: "nat \<Rightarrow> char" where
  "digit d = ''0123456789'' ! d"

text \<open>\<^verbatim>\<open>str(n)\<close> for a non-negative integer: its decimal digits, most significant first.\<close>

fun digits :: "nat \<Rightarrow> string" where
  "digits n = (if n < 10 then [digit n] else digits (n div 10) @ [digit (n mod 10)])"

declare digits.simps [simp del]

text \<open>
  The format specification \<^verbatim>\<open>f"{h:02}"\<close>: minimum width 2, zero fill, sign-aware. A
  negative number keeps its sign, which counts towards the width.
\<close>

definition fmt02 :: "int \<Rightarrow> string" where
  "fmt02 h =
     (if h < 0 then CHR ''-'' # digits (nat (- h))
      else (let s = digits (nat h) in replicate (2 - length s) CHR ''0'' @ s))"

subsection \<open>Instants and spans\<close>

type_synonym datetime = int
type_synonym timedelta = int

definition timedelta_seconds :: "int \<Rightarrow> timedelta" where
  "timedelta_seconds s = s * 1000000"

definition timedelta_hours :: "int \<Rightarrow> timedelta" where
  "timedelta_hours h = h * 3600 * 1000000"

definition total_seconds :: "timedelta \<Rightarrow> rat" where
  "total_seconds d = of_int d / 1000000"

text \<open>\<^verbatim>\<open>int(x)\<close> on a float: truncation towards zero.\<close>

definition py_int :: "rat \<Rightarrow> int" where
  "py_int x = (if 0 \<le> x then \<lfloor>x\<rfloor> else \<lceil>x\<rceil>)"

text \<open>
  The instant of a POSIX timestamp, and \<^verbatim>\<open>datetime.timestamp()\<close>. The conversion that
  Python makes, with its range check, is \<open>datetime_fromtimestamp\<close> below.
\<close>

definition fromtimestamp :: "int \<Rightarrow> datetime" where
  "fromtimestamp ts = ts * 1000000"

definition timestamp :: "datetime \<Rightarrow> rat" where
  "timestamp d = of_int d / 1000000"

text \<open>
  The range of \<^verbatim>\<open>datetime\<close>: \<^verbatim>\<open>datetime.min\<close> is 0001-01-01 00:00:00 and
  \<^verbatim>\<open>datetime.max\<close> is 9999-12-31 23:59:59.999999, here in UTC.
\<close>

definition min_timestamp :: int where "min_timestamp = - 62135596800"
definition max_timestamp :: int where "max_timestamp = 253402300799"

definition datetime_min :: datetime where "datetime_min = min_timestamp * 1000000"
definition datetime_max :: datetime where "datetime_max = max_timestamp * 1000000 + 999999"

text \<open>
  \<^verbatim>\<open>datetime.fromtimestamp(ts, timezone.utc)\<close> with its range check: outside the years
  1 to 9999 it raises (\<^verbatim>\<open>ValueError\<close>, "year out of range"; for timestamps beyond
  what the platform's \<^verbatim>\<open>gmtime\<close> takes the exception is \<^verbatim>\<open>OverflowError\<close> or
  \<^verbatim>\<open>OSError\<close> instead, and the model has the one error value for all of them).
\<close>

definition datetime_fromtimestamp :: "int \<Rightarrow> error + datetime" where
  "datetime_fromtimestamp ts =
     (if min_timestamp \<le> ts \<and> ts \<le> max_timestamp then Inr (fromtimestamp ts) else Inl ValueError)"

text \<open>\<^verbatim>\<open>d + td\<close> on a datetime: \<^verbatim>\<open>OverflowError\<close> ("date value out of range") outside the range.\<close>

definition datetime_add :: "datetime \<Rightarrow> timedelta \<Rightarrow> error + datetime" where
  "datetime_add d td =
     (if datetime_min \<le> d + td \<and> d + td \<le> datetime_max then Inr (d + td) else Inl OverflowError)"

subsection \<open>Frame-text selection for a single instant\<close>

definition get_timer_text :: "datetime \<Rightarrow> datetime \<Rightarrow> string \<Rightarrow> string \<Rightarrow> error + string" where
  "get_timer_text end_time now mode lang =
     (let remaining = py_int (total_seconds (end_time - now)) in
      if remaining > 0 then
        (if mode = ''png'' then
           (let minutes = remaining div 60;
                h = minutes div 60;
                m = minutes mod 60
            in Inr (fmt02 h @ '':'' @ fmt02 m))
         else
           (let h = remaining div 3600;
                m = (remaining mod 3600) div 60;
                s = remaining mod 60
            in Inr (fmt02 h @ '':'' @ fmt02 m @ '':'' @ fmt02 s)))
      else
        (let elapsed = \<bar>remaining\<bar> in
         if elapsed \<le> 3600 then t lang ''started'' else t lang ''over''))"

subsection \<open>Badge rasterizer: the font-fit loop and the placement of the text\<close>

text \<open>
  A bounding box as Pillow returns it: (left, top, right, bottom). The parameter
  \<open>textbbox size text\<close> stands for
  \<^verbatim>\<open>draw.textbbox((0, 0), text, font=get_font(size))\<close>.
\<close>

type_synonym bbox = "int \<times> int \<times> int \<times> int"

text \<open>
  The \<^verbatim>\<open>while size >= 18\<close> loop: leave at the first size that fits, otherwise step
  down by 2. The value returned is the value of \<^verbatim>\<open>size\<close> when the loop is left
  (the variable is called \<open>font_size\<close> here).
\<close>

function fit_size :: "(int \<Rightarrow> string \<Rightarrow> bbox) \<Rightarrow> string \<Rightarrow> int \<Rightarrow> int \<Rightarrow> int \<Rightarrow> int" where
  "fit_size textbbox text max_w max_h font_size =
     (if font_size \<ge> 18 then
        (case textbbox font_size text of (x0, y0, x1, y1) \<Rightarrow>
           (let text_w = x1 - x0; text_h = y1 - y0 in
            if text_w \<le> max_w \<and> text_h \<le> max_h then font_size
            else fit_size textbbox text max_w max_h (font_size - 2)))
      else font_size)"
  by pat_completeness auto
termination
  by (relation "measure (\<lambda>(textbbox, text, max_w, max_h, font_size). nat (font_size - 16))") auto

declare fit_size.simps [simp del]

text \<open>The test of the loop on its own: the measured box fits the padded inner area.\<close>

definition text_fits :: "(int \<Rightarrow> string \<Rightarrow> bbox) \<Rightarrow> string \<Rightarrow> int \<Rightarrow> int \<Rightarrow> int \<Rightarrow> bool" where
  "text_fits textbbox text max_w max_h font_size =
     (case textbbox font_size text of (x0, y0, x1, y1) \<Rightarrow> x1 - x0 \<le> max_w \<and> y1 - y0 \<le> max_h)"

text \<open>What \<^verbatim>\<open>draw.text((x, y), text, fill=TIMER_COLOR, font=font)\<close> is called with.\<close>

record badge =
  badge_text :: string
  badge_size :: int
  badge_x :: int
  badge_y :: int

definition render_timer_frame :: "(int \<Rightarrow> string \<Rightarrow> bbox) \<Rightarrow> string \<Rightarrow> string \<Rightarrow> badge" where
  "render_timer_frame textbbox text lang =
     (let border = 6; padding_x = 18; padding_y = 10;
          max_w = (WIDTH - 2 * border) - 2 * padding_x;
          max_h = (HEIGHT - 2 * border) - 2 * padding_y;
          font_size = fit_size textbbox text max_w max_h FONT_SIZE
      in case textbbox font_size text of (x0, y0, x1, y1) \<Rightarrow>
           (let text_w = x1 - x0; text_h = y1 - y0;
                inner_left = border; inner_top = border;
                inner_w = WIDTH - 2 * border; inner_h = HEIGHT - 2 * border;
                x = inner_left + (inner_w - text_w) div 2 - x0;
                y = inner_top + (inner_h - text_h) div 2 - y0
            in \<lparr>badge_text = text, badge_size = font_size, badge_x = x, badge_y = y\<rparr>))"

subsection \<open>Cache-key quantizer\<close>

text \<open>Floor division of floats, \<^verbatim>\<open>a // b\<close>: the floor of the quotient, as a float.\<close>

definition py_floordiv :: "rat \<Rightarrow> rat \<Rightarrow> rat" where
  "py_floordiv a b = of_int \<lfloor>a / b\<rfloor>"

text \<open>
  \<open>int_of_str\<close> stands for the builtin \<^verbatim>\<open>int(t_param)\<close>, \<open>None\<close> being its
  \<^verbatim>\<open>ValueError\<close>; \<open>utcnow\<close> is what \<^verbatim>\<open>datetime.now(timezone.utc)\<close> reads. The
  query parameter is absent (\<open>None\<close>) or a string; \<^verbatim>\<open>if t_param:\<close> is false for both
  \<open>None\<close> and the empty string.
\<close>

definition get_cache_key ::
  "(string \<Rightarrow> int option) \<Rightarrow> datetime \<Rightarrow> datetime \<Rightarrow> string option \<Rightarrow> string \<Rightarrow> int \<times> int \<times> string" where
  "get_cache_key int_of_str utcnow end_time t_param lang =
     (let rounded =
        (if t_param \<noteq> None \<and> t_param \<noteq> Some [] then
           (case int_of_str (the t_param) of
              Some n \<Rightarrow> n
            | None \<Rightarrow> py_int (py_floordiv (timestamp utcnow) (of_int CACHE_SECONDS)) * CACHE_SECONDS)
         else py_int (py_floordiv (timestamp utcnow) (of_int CACHE_SECONDS)) * CACHE_SECONDS)
      in (py_int (timestamp end_time), rounded, lang))"

subsection \<open>The 60-frame GIF assembly\<close>

text \<open>
  The body of the \<^verbatim>\<open>for i in range(60)\<close> loop, up to the value of \<^verbatim>\<open>text\<close>, for a
  frame instant \<^verbatim>\<open>now + timedelta(seconds=i)\<close> that exists; the loop below makes the
  addition with its range check before it selects the text.
\<close>

definition frame_text :: "datetime \<Rightarrow> datetime \<Rightarrow> string \<Rightarrow> int \<Rightarrow> error + string" where
  "frame_text end_time now lang i =
     (let frame_now = now + timedelta_seconds i;
          remaining = py_int (total_seconds (end_time - frame_now)) in
      if remaining \<le> 0 \<and> \<bar>remaining\<bar> \<le> 3600 then t lang ''started''
      else if remaining < - 3600 then t lang ''over''
      else if remaining > 0 \<and> i \<ge> 60 - CTA_FRAMES then t lang ''cta''
      else
        (let h = remaining div 3600;
             m = (remaining mod 3600) div 60;
             s = remaining mod 60
         in Inr (fmt02 h @ '':'' @ fmt02 m @ '':'' @ fmt02 s)))"

text \<open>
  The loop itself, over the indices still to come, appending to \<^verbatim>\<open>frames\<close>. It
  stops at the first index whose instant is out of range. \<open>frame_from_cache lang text\<close>
  stands for the palette image of the cached badge.
\<close>

fun gif_loop ::
  "(string \<Rightarrow> string \<Rightarrow> 'img) \<Rightarrow> datetime \<Rightarrow> datetime \<Rightarrow> string \<Rightarrow> int list \<Rightarrow> 'img list
     \<Rightarrow> error + 'img list" where
  "gif_loop frame_from_cache end_time now lang [] frames = Inr frames"
| "gif_loop frame_from_cache end_time now lang (i # rest) frames =
     (case datetime_add now (timedelta_seconds i) of
        Inl e \<Rightarrow> Inl e
      | Inr frame_now \<Rightarrow>
          (case frame_text end_time now lang i of
             Inl e \<Rightarrow> Inl e
           | Inr text \<Rightarrow>
               gif_loop frame_from_cache end_time now lang rest
                 (frames @ [frame_from_cache lang text])))"

text \<open>\<^verbatim>\<open>range(60)\<close>.\<close>

definition range60 :: "int list" where
  "range60 = map int [0..<60]"

text \<open>
  The function under the \<^verbatim>\<open>lru_cache\<close> decorator. \<open>save_gif first rest\<close> stands for
  \<^verbatim>\<open>first.save(buf, format="GIF", save_all=True, append_images=rest, duration=1000,
  optimize=True, disposal=2)\<close> followed by \<^verbatim>\<open>buf.getvalue()\<close>.
\<close>

definition generate_gif ::
  "(string \<Rightarrow> string \<Rightarrow> 'img) \<Rightarrow> ('img \<Rightarrow> 'img list \<Rightarrow> 'bytes) \<Rightarrow> int \<Rightarrow> int \<Rightarrow> string
     \<Rightarrow> error + 'bytes" where
  "generate_gif frame_from_cache save_gif end_timestamp rounded_timestamp lang =
     (case datetime_fromtimestamp end_timestamp of
        Inl e \<Rightarrow> Inl e
      | Inr end_time \<Rightarrow>
     (case datetime_fromtimestamp rounded_timestamp of
        Inl e \<Rightarrow> Inl e
      | Inr now \<Rightarrow>
     (case datetime_add end_time (timedelta_hours 1) of
        Inl e \<Rightarrow> Inl e
      | Inr an_hour_after \<Rightarrow>
          if now > an_hour_after then
            (case t lang ''over'' of
               Inl e \<Rightarrow> Inl e
             | Inr text \<Rightarrow> Inr (save_gif (frame_from_cache lang text) []))
          else
            (case gif_loop frame_from_cache end_time now lang range60 [] of
               Inl e \<Rightarrow> Inl e
             | Inr frames \<Rightarrow>
                 (case frames of
                    [] \<Rightarrow> Inl IndexError
                  | first # rest \<Rightarrow> Inr (save_gif first rest))))))"

subsection \<open>The least-recently-used cache in front of the assembly\<close>

text \<open>
  \<^verbatim>\<open>functools.lru_cache(maxsize)\<close>: the entries, most recently used first, and the two
  counters of \<^verbatim>\<open>cache_info()\<close>. A hit moves the entry to the front; a miss calls the
  function, stores the result at the front and drops the entry used longest ago when
  the cache is full. A call that raises stores nothing (the miss is counted before the
  function is called, as the C implementation does).
\<close>

record ('k, 'v) lru =
  entries :: "('k \<times> 'v) list"
  hits :: nat
  misses :: nat

definition lru_call ::
  "nat \<Rightarrow> ('k \<Rightarrow> error + 'v) \<Rightarrow> 'k \<Rightarrow> ('k, 'v) lru \<Rightarrow> (error + 'v) \<times> ('k, 'v) lru" where
  "lru_call maxsize f k c =
     (case map_of (entries c) k of
        Some v \<Rightarrow>
          (Inr v, c\<lparr>entries := (k, v) # filter (\<lambda>e. fst e \<noteq> k) (entries c), hits := hits c + 1\<rparr>)
      | None \<Rightarrow>
          (case f k of
             Inl e \<Rightarrow> (Inl e, c\<lparr>misses := misses c + 1\<rparr>)
           | Inr v \<Rightarrow>
               (Inr v, c\<lparr>entries := take maxsize ((k, v) # entries c), misses := misses c + 1\<rparr>)))"

definition generate_gif_cached ::
  "(string \<Rightarrow> string \<Rightarrow> 'img) \<Rightarrow> ('img \<Rightarrow> 'img list \<Rightarrow> 'bytes) \<Rightarrow> int \<times> int \<times> string
     \<Rightarrow> (int \<times> int \<times> string, 'bytes) lru \<Rightarrow> (error + 'bytes) \<times> (int \<times> int \<times> string, 'bytes) lru" where
  "generate_gif_cached frame_from_cache save_gif =
     lru_call 256 (\<lambda>(end_timestamp, rounded_timestamp, lang).
       generate_gif frame_from_cache save_gif end_timestamp rounded_timestamp lang)"

text \<open>
  The \<^verbatim>\<open>/timer.gif\<close> handler once the deadline is parsed and the language picked:
  \<^verbatim>\<open>end_ts, rounded_ts, lang = get_cache_key(end_time, t_param, lang)\<close>, then
  \<^verbatim>\<open>generate_gif_cached(end_ts, rounded_ts, lang)\<close>.
\<close>

definition timer_gif ::
  "(string \<Rightarrow> int option) \<Rightarrow> (string \<Rightarrow> string \<Rightarrow> 'img) \<Rightarrow> ('img \<Rightarrow> 'img list \<Rightarrow> 'bytes) \<Rightarrow> datetime
     \<Rightarrow> datetime \<Rightarrow> string option \<Rightarrow> string
     \<Rightarrow> (int \<times> int \<times> string, 'bytes) lru \<Rightarrow> (error + 'bytes) \<times> (int \<times> int \<times> string, 'bytes) lru" where
  "timer_gif int_of_str frame_from_cache save_gif utcnow end_time t_param lang cache =
     generate_gif_cached frame_from_cache save_gif
       (get_cache_key int_of_str utcnow end_time t_param lang) cache"

subsection \<open>Reading a rendered countdown back\<close>

text \<open>
  The countdown formats, read from their description rather than from the formatting
  code: fields of decimal digits separated by colons, every field at least two digits
  wide and padded with zeros only up to that width, minutes and seconds exactly two
  digits. The reader returns the numbers the fields denote.
\<close>

definition is_digit :: "char \<Rightarrow> bool" where
  "is_digit c = (c \<in> set ''0123456789'')"

definition digit_val :: "char \<Rightarrow> nat" where
  "digit_val c = of_char c - 48"

definition dec_val :: "string \<Rightarrow> nat" where
  "dec_val s = foldl (\<lambda>acc c. 10 * acc + digit_val c) 0 s"

fun split_on :: "char \<Rightarrow> string \<Rightarrow> string list" where
  "split_on c [] = [[]]"
| "split_on c (x # xs) =
     (if x = c then [] # split_on c xs
      else (case split_on c xs of [] \<Rightarrow> [[x]] | w # ws \<Rightarrow> (x # w) # ws))"

definition field_ok :: "string \<Rightarrow> bool" where
  "field_ok s = (list_all is_digit s \<and> 2 \<le> length s \<and> (length s = 2 \<or> hd s \<noteq> CHR ''0''))"

definition hms_fields :: "string \<Rightarrow> (nat \<times> nat \<times> nat) option" where
  "hms_fields text =
     (case split_on CHR '':'' text of
        [hh, mm, ss] \<Rightarrow>
          if field_ok hh \<and> field_ok mm \<and> length mm = 2 \<and> field_ok ss \<and> length ss = 2
          then Some (dec_val hh, dec_val mm, dec_val ss) else None
      | _ \<Rightarrow> None)"

definition hm_fields :: "string \<Rightarrow> (nat \<times> nat) option" where
  "hm_fields text =
     (case split_on CHR '':'' text of
        [hh, mm] \<Rightarrow>
          if field_ok hh \<and> field_ok mm \<and> length mm = 2
          then Some (dec_val hh, dec_val mm) else None
      | _ \<Rightarrow> None)"

subsection \<open>Stand-ins for the library parameters, for evaluation on concrete inputs\<close>

text \<open>
  A monospaced face measured without bearings: every glyph advances by 0.6 em and the
  box is one em high (RobotoMono advances by 0.6 em).
\<close>

definition monospace_textbbox :: "int \<Rightarrow> string \<Rightarrow> bbox" where
  "monospace_textbbox font_size text = (0, 0, (3 * font_size * int (length text)) div 5, font_size)"

text \<open>
  A decimal parser accepting one optional sign followed by one or more ASCII digits: a
  fragment of what \<^verbatim>\<open>int(str)\<close> accepts. It rejects the empty string.
\<close>

definition parse_decimal :: "string \<Rightarrow> int option" where
  "parse_decimal s =
     (case s of
        [] \<Rightarrow> None
      | c # cs \<Rightarrow>
          if c = CHR ''-'' then
            (if cs \<noteq> [] \<and> list_all is_digit cs then Some (- int (dec_val cs)) else None)
          else if c = CHR ''+'' then
            (if cs \<noteq> [] \<and> list_all is_digit cs then Some (int (dec_val cs)) else None)
          else if list_all is_digit s then Some (int (dec_val s)) else None)"

section \<open>Properties\<close>

subsection \<open>Whole seconds of a span\<close>

lemma floor_total_seconds: "\<lfloor>total_seconds d\<rfloor> = d div 1000000"
proof -
  have "\<lfloor>(of_int d :: rat) / of_int 1000000\<rfloor> = d div 1000000"
    by (rule floor_divide_of_int_eq)
  then show ?thesis by (simp add: total_seconds_def)
qed

text \<open>Truncation towards zero, in integer arithmetic.\<close>

lemma py_int_total_seconds:
  "py_int (total_seconds d) = (if 0 \<le> d then d div 1000000 else - ((- d) div 1000000))"
proof (cases "0 \<le> d")
  case True
  then have "0 \<le> total_seconds d" by (simp add: total_seconds_def)
  with True show ?thesis by (simp add: py_int_def floor_total_seconds)
next
  case False
  then have neg: "\<not> 0 \<le> total_seconds d" by (simp add: total_seconds_def)
  have "\<lceil>total_seconds d\<rceil> = - \<lfloor>total_seconds (- d)\<rfloor>"
    by (simp add: ceiling_def total_seconds_def)
  with False neg show ?thesis by (simp add: py_int_def floor_total_seconds)
qed

subsection \<open>The text table\<close>

lemma t_cta: "t lang ''cta'' = Inr (if lang = ''et'' then ''ALUSTA PANUSTAMIST'' else ''START BETTING'')"
  by (simp add: t_def LANG_TXT_def DEFAULT_LANG_def)

lemma t_started:
  "t lang ''started'' =
     Inr (if lang = ''et'' then ''M'' @ [CHR 0xC4] @ ''NG ON ALANUD'' else ''MATCH HAS STARTED'')"
  by (simp add: t_def LANG_TXT_def DEFAULT_LANG_def)

lemma t_over:
  "t lang ''over'' =
     Inr (if lang = ''et'' then ''M'' @ [CHR 0xC4] @ ''NG ON L'' @ [CHR 0xC4] @ ''BI'' else ''MATCH IS OVER'')"
  by (simp add: t_def LANG_TXT_def DEFAULT_LANG_def)

subsection \<open>Decimal digits\<close>

lemma digit_is_digit: "d < 10 \<Longrightarrow> is_digit (digit d)"
  unfolding is_digit_def digit_def by (rule nth_mem) simp

lemma digit_val_digit: "d < 10 \<Longrightarrow> digit_val (digit d) = d"
proof -
  assume "d < 10"
  then have "d \<in> {0, 1, 2, 3, 4, 5, 6, 7, 8, 9}" by auto
  then show ?thesis by (auto simp: digit_val_def digit_def)
qed

lemma digit_zero: "d < 10 \<Longrightarrow> (digit d = CHR ''0'') = (d = 0)"
proof -
  assume "d < 10"
  then have "d \<in> {0, 1, 2, 3, 4, 5, 6, 7, 8, 9}" by auto
  then show ?thesis by (auto simp: digit_def)
qed

lemma digits_all: "list_all is_digit (digits n)"
proof (induction n rule: digits.induct)
  case (1 n)
  show ?case
  proof (cases "n < 10")
    case True
    then show ?thesis by (simp add: digits.simps [of n] digit_is_digit)
  next
    case False
    with 1 show ?thesis by (simp add: digits.simps [of n] digit_is_digit)
  qed
qed

lemma dec_val_snoc: "dec_val (s @ [c]) = 10 * dec_val s + digit_val c"
  by (simp add: dec_val_def)

lemma dec_val_digits: "dec_val (digits n) = n"
proof (induction n rule: digits.induct)
  case (1 n)
  show ?case
  proof (cases "n < 10")
    case True
    then show ?thesis by (simp add: digits.simps [of n] dec_val_def digit_val_digit)
  next
    case False
    with 1 show ?thesis by (simp add: digits.simps [of n] dec_val_snoc digit_val_digit)
  qed
qed

lemma digits_nonempty: "digits n \<noteq> []"
  by (subst digits.simps) simp

lemma length_digits_small: "n < 10 \<Longrightarrow> length (digits n) = 1"
  by (subst digits.simps) simp

lemma length_digits_two: "10 \<le> n \<Longrightarrow> n < 100 \<Longrightarrow> length (digits n) = 2"
  by (subst digits.simps) (simp add: length_digits_small)

lemma length_digits_big: "10 \<le> n \<Longrightarrow> 2 \<le> length (digits n)"
proof -
  assume "10 \<le> n"
  moreover have "1 \<le> length (digits (n div 10))"
    using digits_nonempty [of "n div 10"] by (cases "digits (n div 10)") auto
  ultimately show ?thesis by (subst digits.simps) simp
qed

lemma hd_digits: "0 < n \<Longrightarrow> hd (digits n) \<noteq> CHR ''0''"
proof (induction n rule: digits.induct)
  case (1 n)
  show ?case
  proof (cases "n < 10")
    case True
    with 1(2) show ?thesis by (simp add: digits.simps [of n] digit_zero)
  next
    case False
    then have "0 < n div 10" by simp
    with 1(1) False have "hd (digits (n div 10)) \<noteq> CHR ''0''" by simp
    with False show ?thesis by (simp add: digits.simps [of n] digits_nonempty)
  qed
qed

lemma dec_val_zeros: "dec_val (replicate k CHR ''0'' @ s) = dec_val s"
proof -
  have "foldl (\<lambda>acc c. 10 * acc + digit_val c) 0 (replicate k CHR ''0'') = 0"
    by (induction k) (simp_all add: digit_val_def)
  then show ?thesis by (simp add: dec_val_def)
qed

subsection \<open>The two-digit format\<close>

lemma fmt02_nonneg:
  assumes "0 \<le> h"
  shows "fmt02 h = (if h < 10 then CHR ''0'' # digits (nat h) else digits (nat h))"
proof (cases "h < 10")
  case True
  with assms have "length (digits (nat h)) = 1" by (simp add: length_digits_small)
  with assms True show ?thesis by (simp add: fmt02_def)
next
  case False
  then have "2 \<le> length (digits (nat h))" by (simp add: length_digits_big)
  with assms False show ?thesis by (simp add: fmt02_def)
qed

lemma fmt02_digits: "0 \<le> h \<Longrightarrow> list_all is_digit (fmt02 h)"
  by (simp add: fmt02_nonneg digits_all is_digit_def)

lemma fmt02_val: "0 \<le> h \<Longrightarrow> dec_val (fmt02 h) = nat h"
  using dec_val_zeros [of 1 "digits (nat h)"] by (simp add: fmt02_nonneg dec_val_digits)

lemma fmt02_length: "0 \<le> h \<Longrightarrow> h < 100 \<Longrightarrow> length (fmt02 h) = 2"
  by (simp add: fmt02_nonneg length_digits_small length_digits_two)

lemma fmt02_field_ok: 
  assumes "0 \<le> h" shows "field_ok (fmt02 h)"
proof (cases "h < 100")
  case True
  with assms show ?thesis by (simp add: field_ok_def fmt02_digits fmt02_length)
next
  case False
  then have "2 \<le> length (digits (nat h))" by (simp add: length_digits_big)
  moreover from False have "hd (digits (nat h)) \<noteq> CHR ''0''" by (simp add: hd_digits)
  ultimately show ?thesis using assms False by (simp add: field_ok_def fmt02_nonneg digits_all)
qed

subsection \<open>Reading back what the format writes\<close>

lemma not_digit_colon: "\<not> is_digit CHR '':''"
  by (simp add: is_digit_def)

lemma no_colon: "list_all is_digit s \<Longrightarrow> CHR '':'' \<notin> set s"
  using not_digit_colon by (auto simp: list_all_iff)

lemma split_on_none: "c \<notin> set s \<Longrightarrow> split_on c s = [s]"
  by (induction s) auto

lemma split_on_append: "c \<notin> set a \<Longrightarrow> split_on c (a @ c # rest) = a # split_on c rest"
  by (induction a) auto

lemma hms_fields_fmt:
  assumes "0 \<le> h" "0 \<le> m" "m < 100" "0 \<le> s" "s < 100"
  shows "hms_fields (fmt02 h @ '':'' @ fmt02 m @ '':'' @ fmt02 s) = Some (nat h, nat m, nat s)"
proof -
  have nc: "CHR '':'' \<notin> set (fmt02 h)" "CHR '':'' \<notin> set (fmt02 m)" "CHR '':'' \<notin> set (fmt02 s)"
    using assms by (simp_all add: no_colon fmt02_digits)
  then have "split_on CHR '':'' (fmt02 h @ '':'' @ fmt02 m @ '':'' @ fmt02 s) = [fmt02 h, fmt02 m, fmt02 s]"
    by (simp add: split_on_append split_on_none)
  then have "hms_fields (fmt02 h @ '':'' @ fmt02 m @ '':'' @ fmt02 s) =
      (if field_ok (fmt02 h) \<and> field_ok (fmt02 m) \<and> length (fmt02 m) = 2 \<and> field_ok (fmt02 s) \<and> length (fmt02 s) = 2
       then Some (dec_val (fmt02 h), dec_val (fmt02 m), dec_val (fmt02 s)) else None)"
    unfolding hms_fields_def by simp
  with assms show ?thesis
    by (simp only: fmt02_field_ok fmt02_length fmt02_val simp_thms if_True)
qed

lemma hm_fields_fmt:
  assumes "0 \<le> h" "0 \<le> m" "m < 100"
  shows "hm_fields (fmt02 h @ '':'' @ fmt02 m) = Some (nat h, nat m)"
proof -
  have nc: "CHR '':'' \<notin> set (fmt02 h)" "CHR '':'' \<notin> set (fmt02 m)"
    using assms by (simp_all add: no_colon fmt02_digits)
  then have "split_on CHR '':'' (fmt02 h @ '':'' @ fmt02 m) = [fmt02 h, fmt02 m]"
    by (simp add: split_on_append split_on_none)
  then have "hm_fields (fmt02 h @ '':'' @ fmt02 m) =
      (if field_ok (fmt02 h) \<and> field_ok (fmt02 m) \<and> length (fmt02 m) = 2
       then Some (dec_val (fmt02 h), dec_val (fmt02 m)) else None)"
    unfolding hm_fields_def by simp
  with assms show ?thesis
    by (simp only: fmt02_field_ok fmt02_length fmt02_val simp_thms if_True)
qed

subsection \<open>The selection, case by case\<close>

text \<open>In the GIF assembly both instants are whole seconds, and so is their distance.\<close>

lemma remaining_whole_seconds:
  "py_int (total_seconds (fromtimestamp e - (fromtimestamp r + timedelta_seconds i))) = e - (r + i)"
proof -
  have "fromtimestamp e - (fromtimestamp r + timedelta_seconds i) = (e - (r + i)) * 1000000"
    by (simp add: fromtimestamp_def timedelta_seconds_def algebra_simps)
  then show ?thesis by (simp add: py_int_total_seconds)
qed

lemma floor_whole_seconds:
  "\<lfloor>total_seconds (fromtimestamp e - (fromtimestamp r + timedelta_seconds i))\<rfloor> = e - (r + i)"
proof -
  have "fromtimestamp e - (fromtimestamp r + timedelta_seconds i) = (e - (r + i)) * 1000000"
    by (simp add: fromtimestamp_def timedelta_seconds_def algebra_simps)
  then show ?thesis by (simp add: floor_total_seconds)
qed

lemma py_int_eq_floor:
  "0 \<le> d \<or> d mod 1000000 = 0 \<Longrightarrow> py_int (total_seconds d) = \<lfloor>total_seconds d\<rfloor>"
  unfolding py_int_total_seconds floor_total_seconds
  by (auto simp: zdiv_zminus1_eq_if)

lemma frame_text_cases:
  "frame_text end_time now lang i =
     (let remaining = py_int (total_seconds (end_time - (now + timedelta_seconds i))) in
      if 0 < remaining then
        (if 55 \<le> i then t lang ''cta''
         else Inr (fmt02 (remaining div 3600) @ '':'' @ fmt02 ((remaining mod 3600) div 60) @ '':'' @
                   fmt02 (remaining mod 60)))
      else if - 3600 \<le> remaining then t lang ''started''
      else t lang ''over'')"
  by (simp add: frame_text_def CTA_FRAMES_def Let_def)

lemma get_timer_text_cases:
  "get_timer_text end_time now mode lang =
     (let remaining = py_int (total_seconds (end_time - now)) in
      if 0 < remaining then
        (if mode = ''png'' then Inr (fmt02 ((remaining div 60) div 60) @ '':'' @ fmt02 ((remaining div 60) mod 60))
         else Inr (fmt02 (remaining div 3600) @ '':'' @ fmt02 ((remaining mod 3600) div 60) @ '':'' @
                   fmt02 (remaining mod 60)))
      else if - 3600 \<le> remaining then t lang ''started''
      else t lang ''over'')"
  by (simp add: get_timer_text_def Let_def)

lemma div_60_60: "(r::int) div 60 div 60 = r div 3600"
  using zdiv_zmult2_eq [of 60 r 60] by simp

lemma mod_3600_div_60: "((r::int) mod 3600) div 60 = (r div 60) mod 60"
  using zmod_zmult2_eq [of 60 r 60] by simp


subsection \<open>A countdown read back gives the time left\<close>

lemma countdown_hms:
  assumes "0 < r"
  shows "\<exists>h m s.
     hms_fields (fmt02 (r div 3600) @ '':'' @ fmt02 ((r mod 3600) div 60) @ '':'' @ fmt02 (r mod 60))
       = Some (h, m, s) \<and>
     m < 60 \<and> s < 60 \<and> int (3600 * h + 60 * m + s) = r"
proof -
  let ?h = "r div 3600" and ?m = "(r mod 3600) div 60" and ?s = "r mod 60"
  have bounds: "0 \<le> ?h" "0 \<le> ?m" "?m < 60" "0 \<le> ?s" "?s < 60"
    using assms by (simp_all add: pos_imp_zdiv_nonneg_iff)
  then have "hms_fields (fmt02 ?h @ '':'' @ fmt02 ?m @ '':'' @ fmt02 ?s) = Some (nat ?h, nat ?m, nat ?s)"
    by (intro hms_fields_fmt) simp_all
  moreover have "3600 * ?h + 60 * ?m + ?s = r"
  proof -
    have a: "3600 * (r div 3600) + r mod 3600 = r" by (rule mult_div_mod_eq)
    have b: "60 * (r mod 3600 div 60) + r mod 3600 mod 60 = r mod 3600" by (rule mult_div_mod_eq)
    have c: "r mod 3600 mod 60 = r mod 60" by (rule mod_mod_cancel) simp
    have "3600 * ?h + 60 * ?m + ?s = 3600 * ?h + (60 * ?m + r mod 3600 mod 60)"
      by (simp only: c add.assoc)
    also have "\<dots> = 3600 * ?h + r mod 3600" by (simp only: b)
    also have "\<dots> = r" by (rule a)
    finally show ?thesis .
  qed
  then have "int (3600 * nat ?h + 60 * nat ?m + nat ?s) = r"
    using bounds by simp
  moreover have "nat ?m < 60" "nat ?s < 60" using bounds by simp_all
  ultimately show ?thesis by blast
qed

lemma countdown_hm:
  assumes "0 < r"
  shows "\<exists>h m.
     hm_fields (fmt02 ((r div 60) div 60) @ '':'' @ fmt02 ((r div 60) mod 60)) = Some (h, m) \<and>
     m < 60 \<and> int (60 * h + m) = r div 60"
proof -
  let ?h = "(r div 60) div 60" and ?m = "(r div 60) mod 60"
  have bounds: "0 \<le> ?h" "0 \<le> ?m" "?m < 60"
    using assms by (simp_all add: pos_imp_zdiv_nonneg_iff)
  then have "hm_fields (fmt02 ?h @ '':'' @ fmt02 ?m) = Some (nat ?h, nat ?m)"
    by (intro hm_fields_fmt) simp_all
  moreover have "60 * ?h + ?m = r div 60"
    by (rule mult_div_mod_eq)
  then have "int (60 * nat ?h + nat ?m) = r div 60"
    using bounds by simp
  moreover have "nat ?m < 60" using bounds by simp
  ultimately show ?thesis by blast
qed

lemma hms_fields_two_fields:
  assumes "0 \<le> h" "0 \<le> m"
  shows "hms_fields (fmt02 h @ '':'' @ fmt02 m) = None"
proof -
  have "CHR '':'' \<notin> set (fmt02 h)" "CHR '':'' \<notin> set (fmt02 m)"
    using assms by (simp_all add: no_colon fmt02_digits)
  then have "split_on CHR '':'' (fmt02 h @ '':'' @ fmt02 m) = [fmt02 h, fmt02 m]"
    by (simp add: split_on_append split_on_none)
  then show ?thesis unfolding hms_fields_def by simp
qed

lemma fmt02_small: "fmt02 0 = ''00''" "fmt02 1 = ''01''"
  by (simp_all add: fmt02_def digits.simps digit_def)

subsection \<open>The call-to-action entries are unlike the other texts\<close>

lemma colon_not_cta: "CHR '':'' \<in> set s \<Longrightarrow> Inr s \<noteq> t lang ''cta''"
  by (auto simp: t_cta)

lemma started_not_cta: "t lang ''started'' \<noteq> t lang' ''cta''"
  by (simp add: t_started t_cta)

lemma over_not_cta: "t lang ''over'' \<noteq> t lang' ''cta''"
  by (simp add: t_over t_cta)

subsection \<open>The bucket of the current time\<close>

lemma py_int_of_int: "py_int (of_int k) = k"
  by (simp add: py_int_def)

lemma py_int_timestamp:
  "py_int (timestamp d) = (if 0 \<le> d then d div 1000000 else - ((- d) div 1000000))"
  using py_int_total_seconds [of d] by (simp add: timestamp_def total_seconds_def)

lemma floor_timestamp_60: "\<lfloor>timestamp u / 60\<rfloor> = u div 60000000"
proof -
  have "\<lfloor>(of_int u :: rat) / of_int 60000000\<rfloor> = u div 60000000"
    by (rule floor_divide_of_int_eq)
  then show ?thesis by (simp add: timestamp_def)
qed

lemma bucket_eq:
  "py_int (py_floordiv (timestamp utcnow) (of_int CACHE_SECONDS)) * CACHE_SECONDS =
     \<lfloor>timestamp utcnow / 60\<rfloor> * 60"
  by (simp add: py_floordiv_def py_int_of_int CACHE_SECONDS_def)

lemma parse_decimal_examples:
  "parse_decimal [] = None" "parse_decimal ''42'' = Some 42" "parse_decimal ''soon'' = None"
  by (simp_all add: parse_decimal_def is_digit_def dec_val_def digit_val_def)

subsection \<open>The frames of the GIF assembly\<close>










subsection \<open>The assembly, case by case\<close>








section \<open>The claims\<close>

subsection \<open>C1: the boundaries between countdown, started and over\<close>

text \<open>
  C1, as amended. The number of whole seconds left is the span from the instant to the
  deadline truncated towards zero (\<^verbatim>\<open>int(...)\<close>), not its floor. With that number,
  \<^verbatim>\<open>get_timer_text\<close> returns the localized "started" text at 0, a countdown at 3600
  (\<open>01:00\<close> in PNG mode, \<open>01:00:00\<close> otherwise), "started" at -3600 and "over" at
  -3601. In the GIF assembly the instants are whole seconds, floor and truncation agree,
  and the same four boundaries hold for the floor; there a countdown at 3600 is shown
  by the frames before the call-to-action window (index below 55) and the
  call-to-action text by the frames inside it.
\<close>

theorem boundary_states:
  "(py_int (total_seconds (end_time - now)) = 0 \<longrightarrow>
      get_timer_text end_time now mode lang = t lang ''started'') \<and>
   (py_int (total_seconds (end_time - now)) = 3600 \<longrightarrow>
      get_timer_text end_time now mode lang =
        Inr (if mode = ''png'' then ''01:00'' else ''01:00:00'')) \<and>
   (py_int (total_seconds (end_time - now)) = - 3600 \<longrightarrow>
      get_timer_text end_time now mode lang = t lang ''started'') \<and>
   (py_int (total_seconds (end_time - now)) = - 3601 \<longrightarrow>
      get_timer_text end_time now mode lang = t lang ''over'') \<and>
   (\<lfloor>total_seconds (fromtimestamp end_ts - (fromtimestamp rounded_ts + timedelta_seconds i))\<rfloor> = 0 \<longrightarrow>
      frame_text (fromtimestamp end_ts) (fromtimestamp rounded_ts) lang i = t lang ''started'') \<and>
   (\<lfloor>total_seconds (fromtimestamp end_ts - (fromtimestamp rounded_ts + timedelta_seconds i))\<rfloor> = 3600 \<longrightarrow>
      frame_text (fromtimestamp end_ts) (fromtimestamp rounded_ts) lang i =
        (if 55 \<le> i then t lang ''cta'' else Inr ''01:00:00'')) \<and>
   (\<lfloor>total_seconds (fromtimestamp end_ts - (fromtimestamp rounded_ts + timedelta_seconds i))\<rfloor> = - 3600 \<longrightarrow>
      frame_text (fromtimestamp end_ts) (fromtimestamp rounded_ts) lang i = t lang ''started'') \<and>
   (\<lfloor>total_seconds (fromtimestamp end_ts - (fromtimestamp rounded_ts + timedelta_seconds i))\<rfloor> = - 3601 \<longrightarrow>
      frame_text (fromtimestamp end_ts) (fromtimestamp rounded_ts) lang i = t lang ''over'')"
proof -
  have f: "fmt02 0 = ''00''" "fmt02 1 = ''01''"
    by (simp_all add: fmt02_def digits.simps digit_def)
  have a: "py_int (total_seconds (end_time - now)) = 0 \<longrightarrow>
      get_timer_text end_time now mode lang = t lang ''started''"
    by (simp add: get_timer_text_cases)
  have b: "py_int (total_seconds (end_time - now)) = 3600 \<longrightarrow>
      get_timer_text end_time now mode lang =
        Inr (if mode = ''png'' then ''01:00'' else ''01:00:00'')"
    by (simp add: get_timer_text_cases f)
  have c: "py_int (total_seconds (end_time - now)) = - 3600 \<longrightarrow>
      get_timer_text end_time now mode lang = t lang ''started''"
    by (simp add: get_timer_text_cases)
  have d: "py_int (total_seconds (end_time - now)) = - 3601 \<longrightarrow>
      get_timer_text end_time now mode lang = t lang ''over''"
    by (simp add: get_timer_text_cases)
  have e: "end_ts - (rounded_ts + i) = 0 \<longrightarrow>
      frame_text (fromtimestamp end_ts) (fromtimestamp rounded_ts) lang i = t lang ''started''"
    by (simp add: frame_text_cases remaining_whole_seconds)
  have g: "end_ts - (rounded_ts + i) = 3600 \<longrightarrow>
      frame_text (fromtimestamp end_ts) (fromtimestamp rounded_ts) lang i =
        (if 55 \<le> i then t lang ''cta'' else Inr ''01:00:00'')"
    by (simp add: frame_text_cases remaining_whole_seconds f)
  have h: "end_ts - (rounded_ts + i) = - 3600 \<longrightarrow>
      frame_text (fromtimestamp end_ts) (fromtimestamp rounded_ts) lang i = t lang ''started''"
    by (simp add: frame_text_cases remaining_whole_seconds)
  have k: "end_ts - (rounded_ts + i) = - 3601 \<longrightarrow>
      frame_text (fromtimestamp end_ts) (fromtimestamp rounded_ts) lang i = t lang ''over''"
    by (simp add: frame_text_cases remaining_whole_seconds)
  from a b c d e g h k show ?thesis
    unfolding floor_whole_seconds by blast
qed

text \<open>
  C1 as stated fails: half a second past the hour after the deadline the floor of the
  span is -3601 seconds, and the text is still "started", not "over".
\<close>

theorem floor_boundary_counterexample:
  "\<lfloor>total_seconds (0 - 3600500000)\<rfloor> = - 3601 \<and>
   get_timer_text 0 3600500000 ''png'' ''en'' = Inr ''MATCH HAS STARTED'' \<and>
   get_timer_text 0 3600500000 ''png'' ''en'' \<noteq> t ''en'' ''over''"
  by (simp add: floor_total_seconds get_timer_text_cases py_int_total_seconds t_started t_over)

text \<open>The four boundaries of C1 at concrete instants, for both selectors.\<close>

theorem boundary_states_witness:
  "get_timer_text 999999 0 ''png'' ''en'' = Inr ''MATCH HAS STARTED'' \<and>
   get_timer_text 3600999999 0 ''png'' ''en'' = Inr ''01:00'' \<and>
   get_timer_text 0 3600999999 ''png'' ''en'' = Inr ''MATCH HAS STARTED'' \<and>
   get_timer_text 0 3601000000 ''png'' ''en'' = Inr ''MATCH IS OVER'' \<and>
   frame_text (fromtimestamp 10) (fromtimestamp 0) ''en'' 10 = Inr ''MATCH HAS STARTED'' \<and>
   frame_text (fromtimestamp 3610) (fromtimestamp 0) ''en'' 10 = Inr ''01:00:00'' \<and>
   frame_text (fromtimestamp 3657) (fromtimestamp 0) ''en'' 57 = Inr ''START BETTING'' \<and>
   frame_text (fromtimestamp 0) (fromtimestamp 3590) ''en'' 10 = Inr ''MATCH HAS STARTED'' \<and>
   frame_text (fromtimestamp 0) (fromtimestamp 3591) ''en'' 10 = Inr ''MATCH IS OVER''"
  using boundary_states [of 999999 0 "''png''" "''en''" 10 0 10]
    boundary_states [of 3600999999 0 "''png''" "''en''" 3610 0 10]
    boundary_states [of 0 3600999999 "''png''" "''en''" 0 3590 10]
    boundary_states [of 0 3601000000 "''png''" "''en''" 0 3591 10]
    boundary_states [of 0 0 "''png''" "''en''" 3657 0 57]
  by (simp add: py_int_total_seconds floor_whole_seconds t_started t_over t_cta)

subsection \<open>C2: the call-to-action window\<close>

text \<open>
  C2, as amended. With 60 frames and \<^verbatim>\<open>CTA_FRAMES = 5\<close> the call-to-action window
  is the last five frames, indices 55 to 59. In the GIF assembly, where the time left
  of frame \<open>i\<close> is \<open>end_ts - (rounded_ts + i)\<close> whole seconds: a frame with index at
  least 55 and time left receives the localized call-to-action text; a frame with index
  below 55 (frame 54 included) and time left receives the countdown, whose fields read
  back to the time left; and a frame with no time left receives the state text
  ("started" up to an hour past the deadline, "over" afterwards) whatever its index, so
  the state text takes precedence over the call to action.
\<close>

theorem cta_window:
  "(0 < end_ts - (rounded_ts + i) \<and> 60 - CTA_FRAMES \<le> i \<longrightarrow>
      frame_text (fromtimestamp end_ts) (fromtimestamp rounded_ts) lang i = t lang ''cta'') \<and>
   (0 < end_ts - (rounded_ts + i) \<and> i < 60 - CTA_FRAMES \<longrightarrow>
      (\<exists>text h m s.
         frame_text (fromtimestamp end_ts) (fromtimestamp rounded_ts) lang i = Inr text \<and>
         hms_fields text = Some (h, m, s) \<and>
         int (3600 * h + 60 * m + s) = end_ts - (rounded_ts + i))) \<and>
   (end_ts - (rounded_ts + i) \<le> 0 \<longrightarrow>
      frame_text (fromtimestamp end_ts) (fromtimestamp rounded_ts) lang i =
        (if - 3600 \<le> end_ts - (rounded_ts + i) then t lang ''started'' else t lang ''over'')) \<and>
   60 - CTA_FRAMES = 55"
proof -
  let ?r = "end_ts - (rounded_ts + i)"
  let ?ft = "frame_text (fromtimestamp end_ts) (fromtimestamp rounded_ts) lang i"
  have a: "0 < ?r \<and> 60 - CTA_FRAMES \<le> i \<longrightarrow> ?ft = t lang ''cta''"
    by (simp add: frame_text_cases remaining_whole_seconds CTA_FRAMES_def)
  have b: "0 < ?r \<and> i < 60 - CTA_FRAMES \<longrightarrow>
      (\<exists>text h m s. ?ft = Inr text \<and> hms_fields text = Some (h, m, s) \<and>
         int (3600 * h + 60 * m + s) = ?r)"
  proof
    assume h: "0 < ?r \<and> i < 60 - CTA_FRAMES"
    then have "?ft = Inr (fmt02 (?r div 3600) @ '':'' @ fmt02 ((?r mod 3600) div 60) @ '':'' @
                   fmt02 (?r mod 60))"
      by (simp add: frame_text_cases remaining_whole_seconds CTA_FRAMES_def Let_def)
    with countdown_hms [of ?r] h show "\<exists>text h m s. ?ft = Inr text \<and>
        hms_fields text = Some (h, m, s) \<and> int (3600 * h + 60 * m + s) = ?r"
      by blast
  qed
  have c: "?r \<le> 0 \<longrightarrow> ?ft = (if - 3600 \<le> ?r then t lang ''started'' else t lang ''over'')"
    by (simp add: frame_text_cases remaining_whole_seconds)
  have d: "60 - CTA_FRAMES = 55" by (simp add: CTA_FRAMES_def)
  from a b c d show ?thesis by blast
qed

text \<open>
  C2 as stated fails at frame 54: with 46 seconds left it shows the countdown, not
  the call-to-action text.
\<close>

theorem cta_frame_54_counterexample:
  "(0::int) < 100 - (0 + 54) \<and>
   frame_text (fromtimestamp 100) (fromtimestamp 0) ''en'' 54 = Inr ''00:00:46'' \<and>
   frame_text (fromtimestamp 100) (fromtimestamp 0) ''en'' 54 \<noteq> t ''en'' ''cta''"
  by (simp add: frame_text_cases remaining_whole_seconds t_cta fmt02_def digits.simps digit_def Let_def)

text \<open>Frames 54, 55 and 57 with and without time left.\<close>

theorem cta_window_witness:
  "frame_text (fromtimestamp 100) (fromtimestamp 0) ''en'' 55 = Inr ''START BETTING'' \<and>
   (\<exists>text h m s. frame_text (fromtimestamp 100) (fromtimestamp 0) ''en'' 54 = Inr text \<and>
      hms_fields text = Some (h, m, s) \<and> int (3600 * h + 60 * m + s) = 46) \<and>
   frame_text (fromtimestamp 54) (fromtimestamp 0) ''en'' 54 = Inr ''MATCH HAS STARTED'' \<and>
   frame_text (fromtimestamp 50) (fromtimestamp 0) ''en'' 57 = Inr ''MATCH HAS STARTED'' \<and>
   frame_text (fromtimestamp 0) (fromtimestamp 3600) ''en'' 54 = Inr ''MATCH IS OVER''"
  using cta_window [of 100 0 54 "''en''"] cta_window [of 100 0 55 "''en''"]
    cta_window [of 54 0 54 "''en''"] cta_window [of 50 0 57 "''en''"]
    cta_window [of 0 3600 54 "''en''"]
  by (simp add: CTA_FRAMES_def t_cta t_started t_over)

subsection \<open>C5: the countdown format of the GIF path\<close>

text \<open>
  C5. Whenever time is left, the text of a GIF frame outside the call-to-action window,
  and the text of \<^verbatim>\<open>get_timer_text\<close> in any mode but PNG, is a countdown of three
  colon-separated fields of decimal digits, each at least two digits wide and
  zero-padded to that width only, minutes and seconds exactly two digits and below 60.
  The hours field is not reduced: the three fields read back to exactly the number of
  seconds left, however many digits the hours take. 3661 seconds are shown as
  \<open>01:01:01\<close>.
\<close>

theorem countdown_format:
  "(0 < end_ts - (rounded_ts + i) \<and> i < 60 - CTA_FRAMES \<longrightarrow>
      (\<exists>text h m s.
         frame_text (fromtimestamp end_ts) (fromtimestamp rounded_ts) lang i = Inr text \<and>
         hms_fields text = Some (h, m, s) \<and> m < 60 \<and> s < 60 \<and>
         int (3600 * h + 60 * m + s) = end_ts - (rounded_ts + i))) \<and>
   (0 < py_int (total_seconds (end_time - now)) \<and> mode \<noteq> ''png'' \<longrightarrow>
      (\<exists>text h m s.
         get_timer_text end_time now mode lang = Inr text \<and>
         hms_fields text = Some (h, m, s) \<and> m < 60 \<and> s < 60 \<and>
         int (3600 * h + 60 * m + s) = py_int (total_seconds (end_time - now)))) \<and>
   frame_text (fromtimestamp 3661) (fromtimestamp 0) lang 0 = Inr ''01:01:01'' \<and>
   get_timer_text (fromtimestamp 3661) (fromtimestamp 0) ''gif'' lang = Inr ''01:01:01''"
proof -
  let ?r = "end_ts - (rounded_ts + i)"
  let ?ft = "frame_text (fromtimestamp end_ts) (fromtimestamp rounded_ts) lang i"
  let ?q = "py_int (total_seconds (end_time - now))"
  have a: "0 < ?r \<and> i < 60 - CTA_FRAMES \<longrightarrow>
      (\<exists>text h m s. ?ft = Inr text \<and> hms_fields text = Some (h, m, s) \<and> m < 60 \<and> s < 60 \<and>
         int (3600 * h + 60 * m + s) = ?r)"
  proof
    assume h: "0 < ?r \<and> i < 60 - CTA_FRAMES"
    then have "?ft = Inr (fmt02 (?r div 3600) @ '':'' @ fmt02 ((?r mod 3600) div 60) @ '':'' @
                   fmt02 (?r mod 60))"
      by (simp add: frame_text_cases remaining_whole_seconds CTA_FRAMES_def Let_def)
    with countdown_hms [of ?r] h show "\<exists>text h m s. ?ft = Inr text \<and>
        hms_fields text = Some (h, m, s) \<and> m < 60 \<and> s < 60 \<and> int (3600 * h + 60 * m + s) = ?r"
      by blast
  qed
  have b: "0 < ?q \<and> mode \<noteq> ''png'' \<longrightarrow>
      (\<exists>text h m s. get_timer_text end_time now mode lang = Inr text \<and>
         hms_fields text = Some (h, m, s) \<and> m < 60 \<and> s < 60 \<and>
         int (3600 * h + 60 * m + s) = ?q)"
  proof
    assume h: "0 < ?q \<and> mode \<noteq> ''png''"
    then have "get_timer_text end_time now mode lang =
        Inr (fmt02 (?q div 3600) @ '':'' @ fmt02 ((?q mod 3600) div 60) @ '':'' @ fmt02 (?q mod 60))"
      by (simp add: get_timer_text_cases Let_def)
    with countdown_hms [of ?q] h show "\<exists>text h m s. get_timer_text end_time now mode lang = Inr text \<and>
        hms_fields text = Some (h, m, s) \<and> m < 60 \<and> s < 60 \<and> int (3600 * h + 60 * m + s) = ?q"
      by blast
  qed
  have c: "frame_text (fromtimestamp 3661) (fromtimestamp 0) lang 0 = Inr ''01:01:01''"
    by (simp add: frame_text_cases remaining_whole_seconds Let_def fmt02_small)
  have "py_int (total_seconds (fromtimestamp 3661 - fromtimestamp 0)) = 3661"
    by (simp add: py_int_total_seconds fromtimestamp_def)
  then have d: "get_timer_text (fromtimestamp 3661) (fromtimestamp 0) ''gif'' lang = Inr ''01:01:01''"
    by (simp add: get_timer_text_cases Let_def fmt02_small)
  from a b c d show ?thesis by blast
qed

text \<open>A hundred hours (a three-digit hours field), a second short of a day, and 3661 seconds.\<close>

theorem countdown_format_witness:
  "(\<exists>text h m s.
      frame_text (fromtimestamp 360000) (fromtimestamp 0) ''en'' 0 = Inr text \<and>
      hms_fields text = Some (h, m, s) \<and> m < 60 \<and> s < 60 \<and>
      int (3600 * h + 60 * m + s) = 360000) \<and>
   (\<exists>text h m s.
      get_timer_text 86399999999 0 ''gif'' ''et'' = Inr text \<and>
      hms_fields text = Some (h, m, s) \<and> m < 60 \<and> s < 60 \<and>
      int (3600 * h + 60 * m + s) = 86399) \<and>
   frame_text (fromtimestamp 3661) (fromtimestamp 0) ''en'' 0 = Inr ''01:01:01'' \<and>
   get_timer_text (fromtimestamp 3661) (fromtimestamp 0) ''gif'' ''en'' = Inr ''01:01:01''"
  using countdown_format [of 360000 0 0 "''en''" 86399999999 0 "''gif''"]
    countdown_format [of 360000 0 0 "''et''" 86399999999 0 "''gif''"]
  by (simp add: CTA_FRAMES_def py_int_total_seconds)

subsection \<open>C8: the PNG path shows hours and minutes only\<close>

text \<open>
  C8. Whenever time is left, the text of \<^verbatim>\<open>get_timer_text\<close> in PNG mode has two
  colon-separated fields and no seconds field: zero-padded hours and two-digit minutes
  below 60, which read back to the whole minutes left, \<^verbatim>\<open>remaining // 60\<close>. It is not
  of the three-field form of the GIF path.
\<close>

theorem png_minutes_only:
  "0 < py_int (total_seconds (end_time - now)) \<longrightarrow>
     (\<exists>text h m.
        get_timer_text end_time now ''png'' lang = Inr text \<and>
        hm_fields text = Some (h, m) \<and> m < 60 \<and>
        int (60 * h + m) = py_int (total_seconds (end_time - now)) div 60 \<and>
        hms_fields text = None)"
proof
  let ?q = "py_int (total_seconds (end_time - now))"
  assume h: "0 < ?q"
  then have g: "get_timer_text end_time now ''png'' lang =
      Inr (fmt02 ((?q div 60) div 60) @ '':'' @ fmt02 ((?q div 60) mod 60))"
    by (simp add: get_timer_text_cases Let_def)
  from h have "0 \<le> (?q div 60) div 60" "0 \<le> (?q div 60) mod 60"
    by (simp_all add: pos_imp_zdiv_nonneg_iff)
  then have "hms_fields (fmt02 ((?q div 60) div 60) @ '':'' @ fmt02 ((?q div 60) mod 60)) = None"
    by (rule hms_fields_two_fields)
  with countdown_hm [of ?q] h g show "\<exists>text h m.
        get_timer_text end_time now ''png'' lang = Inr text \<and>
        hm_fields text = Some (h, m) \<and> m < 60 \<and> int (60 * h + m) = ?q div 60 \<and>
        hms_fields text = None"
    by auto
qed

text \<open>One hour, one minute and nearly two seconds left: 61 whole minutes.\<close>

theorem png_minutes_only_witness:
  "\<exists>text h m.
      get_timer_text 3661999999 0 ''png'' ''en'' = Inr text \<and>
      hm_fields text = Some (h, m) \<and> m < 60 \<and> int (60 * h + m) = 61 \<and>
      hms_fields text = None"
  using png_minutes_only [of 3661999999 0 "''en''"]
  by (simp add: py_int_total_seconds)

subsection \<open>C7: the selection is total and its result has one of the known shapes\<close>

text \<open>
  C7, as amended. For every deadline and instant, hence for every integer number of
  seconds left (each is attained), the selection returns a text and never raises. The
  text of \<^verbatim>\<open>get_timer_text\<close> is a countdown when time is left, of the three-field form
  HH:MM:SS in every mode but PNG and of the two-field form HH:MM in PNG mode; it is the
  localized "started" entry up to an hour past the deadline and the localized "over"
  entry afterwards. The text of a GIF frame is the localized call-to-action entry when
  time is left and the frame is one of the last five, an HH:MM:SS countdown when time
  is left otherwise, and the "started" or "over" entry as above.
\<close>

theorem selection_total:
  "(\<exists>text.
      get_timer_text end_time now mode lang = Inr text \<and>
      (if 0 < py_int (total_seconds (end_time - now)) then
         (if mode = ''png'' then hm_fields text \<noteq> None else hms_fields text \<noteq> None)
       else if - 3600 \<le> py_int (total_seconds (end_time - now)) then Inr text = t lang ''started''
       else Inr text = t lang ''over'')) \<and>
   (\<exists>text.
      frame_text end_time now lang i = Inr text \<and>
      (if 0 < py_int (total_seconds (end_time - (now + timedelta_seconds i))) then
         (if 60 - CTA_FRAMES \<le> i then Inr text = t lang ''cta'' else hms_fields text \<noteq> None)
       else if - 3600 \<le> py_int (total_seconds (end_time - (now + timedelta_seconds i)))
         then Inr text = t lang ''started''
       else Inr text = t lang ''over'')) \<and>
   py_int (total_seconds (fromtimestamp remaining - fromtimestamp 0)) = remaining"
proof -
  let ?q = "py_int (total_seconds (end_time - now))"
  let ?r = "py_int (total_seconds (end_time - (now + timedelta_seconds i)))"
  have tot: "\<exists>s. t lang ''started'' = Inr s" "\<exists>s. t lang ''over'' = Inr s" "\<exists>s. t lang ''cta'' = Inr s"
    by (simp_all add: t_started t_over t_cta)
  have a: "\<exists>text. get_timer_text end_time now mode lang = Inr text \<and>
      (if 0 < ?q then (if mode = ''png'' then hm_fields text \<noteq> None else hms_fields text \<noteq> None)
       else if - 3600 \<le> ?q then Inr text = t lang ''started'' else Inr text = t lang ''over'')"
  proof (cases "0 < ?q")
    case True
    show ?thesis
    proof (cases "mode = ''png''")
      case True
      with \<open>0 < ?q\<close> countdown_hm [of ?q] show ?thesis
        by (auto simp: get_timer_text_cases Let_def)
    next
      case False
      with \<open>0 < ?q\<close> countdown_hms [of ?q] show ?thesis
        by (auto simp: get_timer_text_cases Let_def)
    qed
  next
    case False
    with tot show ?thesis
      by (auto simp: get_timer_text_cases Let_def)
  qed
  have b: "\<exists>text. frame_text end_time now lang i = Inr text \<and>
      (if 0 < ?r then (if 60 - CTA_FRAMES \<le> i then Inr text = t lang ''cta'' else hms_fields text \<noteq> None)
       else if - 3600 \<le> ?r then Inr text = t lang ''started'' else Inr text = t lang ''over'')"
  proof (cases "0 < ?r")
    case True
    show ?thesis
    proof (cases "55 \<le> i")
      case True
      with \<open>0 < ?r\<close> tot show ?thesis
        by (auto simp: frame_text_cases Let_def CTA_FRAMES_def)
    next
      case False
      with \<open>0 < ?r\<close> countdown_hms [of ?r] show ?thesis
        by (auto simp: frame_text_cases Let_def CTA_FRAMES_def)
    qed
  next
    case False
    with tot show ?thesis
      by (auto simp: frame_text_cases Let_def)
  qed
  have c: "py_int (total_seconds (fromtimestamp remaining - fromtimestamp 0)) = remaining"
    using remaining_whole_seconds [of remaining 0 0]
    by (simp add: timedelta_seconds_def fromtimestamp_def)
  from a b c show ?thesis by blast
qed

text \<open>
  C7 as stated fails in PNG mode: with 3661 seconds left the text is \<open>01:01\<close>, which
  is neither an entry of the table nor of the form HH:MM:SS.
\<close>

theorem png_shape_counterexample:
  "get_timer_text (fromtimestamp 3661) (fromtimestamp 0) ''png'' ''en'' = Inr ''01:01'' \<and>
   hms_fields ''01:01'' = None \<and>
   t ''en'' ''cta'' \<noteq> Inr ''01:01'' \<and>
   t ''en'' ''started'' \<noteq> Inr ''01:01'' \<and>
   t ''en'' ''over'' \<noteq> Inr ''01:01''"
proof -
  have "py_int (total_seconds (fromtimestamp 3661 - fromtimestamp 0)) = 3661"
    by (simp add: py_int_total_seconds fromtimestamp_def)
  then have "get_timer_text (fromtimestamp 3661) (fromtimestamp 0) ''png'' ''en'' = Inr ''01:01''"
    by (simp add: get_timer_text_cases Let_def fmt02_def digits.simps digit_def)
  moreover have "hms_fields ''01:01'' = None"
    by (simp add: hms_fields_def)
  ultimately show ?thesis by (simp add: t_cta t_started t_over)
qed

text \<open>Each category at a concrete input, very large magnitudes included.\<close>

theorem selection_total_witness:
  "(\<exists>text. get_timer_text 5000000 0 ''png'' ''en'' = Inr text \<and> hm_fields text \<noteq> None) \<and>
   (\<exists>text. get_timer_text 5000000 0 ''gif'' ''en'' = Inr text \<and> hms_fields text \<noteq> None) \<and>
   get_timer_text 0 5000000 ''gif'' ''en'' = Inr ''MATCH HAS STARTED'' \<and>
   get_timer_text (- 10000000000000000000000) 0 ''gif'' ''en'' = Inr ''MATCH IS OVER'' \<and>
   (\<exists>text. frame_text 10000000000000000000000 0 ''en'' 3 = Inr text \<and> hms_fields text \<noteq> None) \<and>
   frame_text 100000000 0 ''en'' 56 = Inr ''START BETTING''"
  using selection_total [of 5000000 0 "''png''" "''en''" 3 0]
    selection_total [of 5000000 0 "''gif''" "''en''" 3 0]
    selection_total [of 0 5000000 "''gif''" "''en''" 3 0]
    selection_total [of "- 10000000000000000000000" 0 "''gif''" "''en''" 3 0]
    selection_total [of 10000000000000000000000 0 "''gif''" "''en''" 3 0]
    selection_total [of 100000000 0 "''gif''" "''en''" 56 0]
  by (simp add: py_int_total_seconds timedelta_seconds_def CTA_FRAMES_def t_started t_over t_cta)

subsection \<open>C10: single-frame rendering never shows the call to action\<close>

text \<open>
  C10. For every deadline, instant and language, the text that \<^verbatim>\<open>get_timer_text\<close>
  selects in PNG mode is not the call-to-action entry of the table, in that language
  or in any other.
\<close>

theorem png_never_cta: "get_timer_text end_time now ''png'' lang \<noteq> t lang' ''cta''"
proof -
  let ?q = "py_int (total_seconds (end_time - now))"
  show ?thesis
  proof (cases "0 < ?q")
    case True
    then have "get_timer_text end_time now ''png'' lang =
        Inr (fmt02 ((?q div 60) div 60) @ '':'' @ fmt02 ((?q div 60) mod 60))"
      by (simp add: get_timer_text_cases Let_def)
    moreover have "CHR '':'' \<in> set (fmt02 ((?q div 60) div 60) @ '':'' @ fmt02 ((?q div 60) mod 60))"
      by simp
    ultimately show ?thesis by (simp only: colon_not_cta not_False_eq_True)
  next
    case False
    then have "get_timer_text end_time now ''png'' lang = t lang ''started'' \<or>
        get_timer_text end_time now ''png'' lang = t lang ''over''"
      by (simp add: get_timer_text_cases Let_def)
    then show ?thesis using started_not_cta over_not_cta by metis
  qed
qed

subsection \<open>C4: the cache-key quantizer\<close>

text \<open>
  C4. Given that the integer parser rejects the empty string (as \<^verbatim>\<open>int("")\<close> does):
  an override that is supplied and parses as an integer is the quantized timestamp,
  verbatim; an override that is absent, or supplied but not parsable, gives
  \<open>\<lfloor>now / 60\<rfloor> * 60\<close>, the current epoch seconds cut down to the minute. These
  cases are exhaustive and the function returns a key in each: the parse error is
  caught and never leaves the quantizer. The first component is the deadline's epoch
  seconds and the third the language.
\<close>

theorem quantizer:
  assumes "int_of_str [] = None"
  shows
    "(t_param = Some s \<and> int_of_str s = Some n \<longrightarrow>
        get_cache_key int_of_str utcnow end_time t_param lang =
          (py_int (timestamp end_time), n, lang)) \<and>
     (t_param = None \<or> (t_param = Some s \<and> int_of_str s = None) \<longrightarrow>
        get_cache_key int_of_str utcnow end_time t_param lang =
          (py_int (timestamp end_time), \<lfloor>timestamp utcnow / 60\<rfloor> * 60, lang))"
proof -
  have a: "t_param = Some s \<and> int_of_str s = Some n \<longrightarrow>
        get_cache_key int_of_str utcnow end_time t_param lang =
          (py_int (timestamp end_time), n, lang)"
  proof
    assume h: "t_param = Some s \<and> int_of_str s = Some n"
    with assms have "s \<noteq> []" by auto
    with h show "get_cache_key int_of_str utcnow end_time t_param lang =
          (py_int (timestamp end_time), n, lang)"
      by (simp add: get_cache_key_def)
  qed
  have b: "t_param = None \<or> (t_param = Some s \<and> int_of_str s = None) \<longrightarrow>
        get_cache_key int_of_str utcnow end_time t_param lang =
          (py_int (timestamp end_time), \<lfloor>timestamp utcnow / 60\<rfloor> * 60, lang)"
    by (auto simp: get_cache_key_def bucket_eq)
  from a b show ?thesis by blast
qed

text \<open>An override that parses, one that does not, and none, at the same clock reading.\<close>

theorem quantizer_witness:
  "get_cache_key parse_decimal 1700000123456789 1700003600000000 (Some ''42'') ''en'' =
     (1700003600, 42, ''en'') \<and>
   get_cache_key parse_decimal 1700000123456789 1700003600000000 (Some ''soon'') ''en'' =
     (1700003600, 1700000100, ''en'') \<and>
   get_cache_key parse_decimal 1700000123456789 1700003600000000 None ''en'' =
     (1700003600, 1700000100, ''en'')"
  using quantizer [of parse_decimal "Some ''42''" "''42''" 42 1700000123456789 1700003600000000 "''en''"]
    quantizer [of parse_decimal "Some ''soon''" "''soon''" 0 1700000123456789 1700003600000000 "''en''"]
    quantizer [of parse_decimal None "''soon''" 0 1700000123456789 1700003600000000 "''en''"]
  by (simp add: parse_decimal_examples py_int_timestamp floor_timestamp_60)

subsection \<open>C3: the structure of the animation\<close>




end
